theory Spec2Isabelle
  imports
    Main
    "HOL-Library.List_Lexorder"
    "HOL-Library.Char_ord"
    "HOL-Library.Multiset"
begin

section \<open>Data structures (dataStructures.ts)\<close>

text \<open>
  Line numbers and versions are TypeScript \<^verbatim>\<open>number\<close>s that only ever hold integers; they
  are modelled as \<^typ>\<open>int\<close>. Timestamps are ISO-8601 strings compared with the
  JavaScript string order, which is the lexicographic order on code units: \<^typ>\<open>string\<close>
  with the lexicographic list order. The only inhabitant of the \<^verbatim>\<open>type\<close> field's literal
  type is \<^verbatim>\<open>'ai-generated'\<close>.

  \<^verbatim>\<open>Annotation\<close> and \<^verbatim>\<open>ContentChange\<close> both have fields \<^verbatim>\<open>startLine\<close> and
  \<^verbatim>\<open>endLine\<close>, \<^verbatim>\<open>Snapshot\<close> and \<^verbatim>\<open>Commit\<close> both have \<^verbatim>\<open>documentVersion\<close>:
  the selectors are written with their record's name wherever they clash. The field
  \<^verbatim>\<open>text\<close> is \<open>text'\<close> here.
\<close>

datatype annotationType = AiGenerated

text \<open>
  The change event of the host editor, with the fields that \<^verbatim>\<open>extractContentChanges\<close>
  reads: a range of 0-based positions, the length of the replaced text and the inserted
  text. The fields \<^verbatim>\<open>range\<close> and \<^verbatim>\<open>end\<close> are \<open>range'\<close> and \<open>end'\<close> here.
\<close>

record Position =
  line :: int
  character :: int

record Range =
  start :: Position
  end' :: Position

record TextDocumentContentChangeEvent =
  range' :: Range
  rangeLength :: int
  text' :: string

record ContentChange =
  startLine :: int
  endLine :: int
  startCharacter :: int
  endCharacter :: int
  text' :: string
  rangeLength :: int
  addedLines :: int
  deletedLines :: int

record Commit =
  documentVersion :: int
  isSignificant :: bool
  contentChanges :: "ContentChange list"

record Annotation =
  startLine :: int
  endLine :: int
  timestamp :: string
  type :: annotationType

record Snapshot =
  highlightedRanges :: "Annotation list"
  lastUpdated :: string
  documentVersion :: int

section \<open>The environment: the clock and \<^verbatim>\<open>Array.prototype.sort\<close>\<close>

text \<open>
  \<^verbatim>\<open>new Date().toISOString()\<close> reads the system clock. The clock is the sequence of the
  readings it will give, and the number of readings taken so far is threaded through
  every function that reads it.
\<close>

type_synonym clock = "nat \<Rightarrow> string"

definition dateNow :: "clock \<Rightarrow> nat \<Rightarrow> string \<times> nat" where
  "dateNow clk t = (clk t, Suc t)"

text \<open>A clock that stands still: every reading is the same instant.\<close>

definition fixedClock :: "string \<Rightarrow> clock" where
  "fixedClock instant n = instant"

text \<open>
  \<^verbatim>\<open>xs.sort(cmp)\<close> is a stable sort: \<open>a\<close> is placed before \<open>b\<close> when \<open>cmp a b < 0\<close>,
  and elements that compare equal keep their order. It is modelled by the stable
  insertion sort with the comparator of the source as its parameter.
\<close>

fun insertBy :: "('a \<Rightarrow> 'a \<Rightarrow> int) \<Rightarrow> 'a \<Rightarrow> 'a list \<Rightarrow> 'a list" where
  "insertBy cmp x [] = [x]"
| "insertBy cmp x (y # ys) =
     (if cmp x y \<le> 0 then x # y # ys else y # insertBy cmp x ys)"

definition arraySort :: "('a \<Rightarrow> 'a \<Rightarrow> int) \<Rightarrow> 'a list \<Rightarrow> 'a list" where
  "arraySort cmp xs = foldr (insertBy cmp) xs []"

section \<open>The annotation system (annotationSystem.ts)\<close>

subsection \<open>extractContentChanges\<close>

text \<open>
  \<^verbatim>\<open>change.text.match(/\n/g)\<close> finds the line feeds of the inserted text; the empty
  string is falsy and gives 0 added lines.
\<close>

definition extractContentChanges ::
    "TextDocumentContentChangeEvent list \<Rightarrow> ContentChange list" where
  "extractContentChanges vsCodeChanges =
     map (\<lambda>change.
       let addedLines' =
             (if TextDocumentContentChangeEvent.text' change \<noteq> []
              then int (length (filter (\<lambda>ch. ch = CHR 0x0A)
                                  (TextDocumentContentChangeEvent.text' change)))
              else 0);
           deletedLines' =
             (if TextDocumentContentChangeEvent.rangeLength change > 0
              then line (end' (range' change)) - line (start (range' change))
              else 0)
       in \<lparr>ContentChange.startLine = line (start (range' change)) + 1,
           endLine = line (end' (range' change)) + 1,
           startCharacter = character (start (range' change)),
           endCharacter = character (end' (range' change)),
           text' = TextDocumentContentChangeEvent.text' change,
           rangeLength = TextDocumentContentChangeEvent.rangeLength change,
           addedLines = addedLines',
           deletedLines = deletedLines'\<rparr>)
       vsCodeChanges"

subsection \<open>processAnnotationForChangeAndClean\<close>

definition processAnnotationForChangeAndClean ::
    "Annotation \<Rightarrow> ContentChange \<Rightarrow> Annotation list" where
  "processAnnotationForChangeAndClean annotation change =
    (let deleteStart = ContentChange.startLine change;
         deleteEnd = ContentChange.endLine change;
         numDeletedLines = deletedLines change;
         numInsertedLines = addedLines change;
         numNetLineChange = numInsertedLines - numDeletedLines
     in
       if Annotation.endLine annotation < deleteStart then [annotation]
       else if Annotation.startLine annotation > deleteEnd then
         [annotation\<lparr>Annotation.startLine := Annotation.startLine annotation + numNetLineChange,
                      Annotation.endLine := Annotation.endLine annotation + numNetLineChange\<rparr>]
       else
         let results1 =
               (if Annotation.startLine annotation < deleteStart
                then [annotation\<lparr>Annotation.startLine := Annotation.startLine annotation,
                                  Annotation.endLine := deleteStart - 1\<rparr>]
                else []);
             results2 =
               (if Annotation.endLine annotation > deleteEnd
                then
                  (let afterStart = (deleteEnd + 1) + numNetLineChange;
                       numRemainingLines = Annotation.endLine annotation - deleteEnd;
                       afterEnd = afterStart + numRemainingLines - 1
                   in results1 @ [annotation\<lparr>Annotation.startLine := afterStart,
                                              Annotation.endLine := afterEnd\<rparr>])
                else results1)
         in filter (\<lambda>ann. Annotation.startLine ann \<le> Annotation.endLine ann) results2)"

subsection \<open>updateAndCleanAnnotationsForContentChange\<close>

text \<open>The \<^verbatim>\<open>for\<close> loop over the annotations, with \<open>updatedAnnotations\<close> as accumulator.\<close>

fun contentChangeLoop ::
    "ContentChange \<Rightarrow> Annotation list \<Rightarrow> Annotation list \<Rightarrow> Annotation list" where
  "contentChangeLoop change updatedAnnotations [] = updatedAnnotations"
| "contentChangeLoop change updatedAnnotations (annotation # rest) =
     contentChangeLoop change
       (updatedAnnotations @ processAnnotationForChangeAndClean annotation change) rest"

definition updateAndCleanAnnotationsForContentChange ::
    "Annotation list \<Rightarrow> ContentChange \<Rightarrow> Annotation list" where
  "updateAndCleanAnnotationsForContentChange annotations change =
     contentChangeLoop change [] annotations"

subsection \<open>updateAndCleanAnnotationsForCommit\<close>

text \<open>The \<^verbatim>\<open>for\<close> loop over the sorted changes, with \<open>updatedRanges\<close> as accumulator.\<close>

fun commitLoop :: "Annotation list \<Rightarrow> ContentChange list \<Rightarrow> Annotation list" where
  "commitLoop updatedRanges [] = updatedRanges"
| "commitLoop updatedRanges (change # rest) =
     commitLoop (updateAndCleanAnnotationsForContentChange updatedRanges change) rest"

definition updateAndCleanAnnotationsForCommit ::
    "Annotation list \<Rightarrow> ContentChange list \<Rightarrow> Annotation list" where
  "updateAndCleanAnnotationsForCommit annotations changes =
    (let updatedRanges = annotations;
         sortedChanges =
           arraySort (\<lambda>a b. ContentChange.startLine b - ContentChange.startLine a) changes
     in commitLoop updatedRanges sortedChanges)"

subsection \<open>addAnnotationsForSignificantChanges\<close>

text \<open>Every iteration reads the clock once, for the new annotation's timestamp.\<close>

fun addLoop ::
    "clock \<Rightarrow> nat \<Rightarrow> Annotation list \<Rightarrow> ContentChange list \<Rightarrow> Annotation list \<times> nat" where
  "addLoop clk t newAnnotations [] = (newAnnotations, t)"
| "addLoop clk t newAnnotations (change # rest) =
    (let (now, t') = dateNow clk t;
         newAnnotation =
           \<lparr>Annotation.startLine = ContentChange.startLine change,
            Annotation.endLine = ContentChange.startLine change + addedLines change,
            timestamp = now,
            type = AiGenerated\<rparr>
     in addLoop clk t' (newAnnotations @ [newAnnotation]) rest)"

definition addAnnotationsForSignificantChanges ::
    "clock \<Rightarrow> nat \<Rightarrow> ContentChange list \<Rightarrow> Annotation list \<times> nat" where
  "addAnnotationsForSignificantChanges clk t contentChanges' =
     addLoop clk t [] contentChanges'"

subsection \<open>squashOverlappingAnnotations\<close>

text \<open>
  The loop over \<open>sorted[1..]\<close>. \<open>last\<close> is the last element of \<open>squashed\<close>, which the
  source updates in place; \<open>squashed\<close> is never empty, it starts as \<open>[sorted[0]]\<close>.
  Annotations are values here: the arrays of the callers hold pairwise different
  objects (they come from \<^verbatim>\<open>JSON.parse\<close>, an object spread or an object literal), so
  the update of \<open>last\<close> changes no element that the loop has still to read. The model
  returns the list of the resulting values; that the caller's objects are updated too
  is not part of it.
\<close>

fun squashLoop :: "Annotation list \<Rightarrow> Annotation list \<Rightarrow> Annotation list" where
  "squashLoop squashed [] = squashed"
| "squashLoop squashed (current # rest) =
    (let last' = last squashed in
     if Annotation.startLine current \<le> Annotation.endLine last' + 1
     then squashLoop
            (butlast squashed @
              [last'\<lparr>Annotation.endLine :=
                        max (Annotation.endLine last') (Annotation.endLine current),
                      timestamp :=
                        (if timestamp current > timestamp last'
                         then timestamp current else timestamp last')\<rparr>])
            rest
     else squashLoop (squashed @ [current]) rest)"

definition squashOverlappingAnnotations :: "Annotation list \<Rightarrow> Annotation list" where
  "squashOverlappingAnnotations annotations =
    (if length annotations \<le> 1 then annotations
     else
       let sorted' =
             arraySort (\<lambda>a b. Annotation.startLine a - Annotation.startLine b) annotations
       in case sorted' of
            [] \<Rightarrow> []
          | first # rest \<Rightarrow> squashLoop [first] rest)"

subsection \<open>applyChange\<close>

definition applyChange :: "clock \<Rightarrow> nat \<Rightarrow> Snapshot \<Rightarrow> Commit \<Rightarrow> Snapshot \<times> nat" where
  "applyChange clk t snapshot commit =
    (let updatedRanges =
           updateAndCleanAnnotationsForCommit
             (highlightedRanges snapshot) (contentChanges commit);
         (updatedRanges, t1) =
           (if isSignificant commit
            then
              (let (newAnnotations, t') =
                     addAnnotationsForSignificantChanges clk t (contentChanges commit)
               in (updatedRanges @ newAnnotations, t'))
            else (updatedRanges, t));
         updatedRanges = squashOverlappingAnnotations updatedRanges;
         (now, t2) = dateNow clk t1
     in (\<lparr>highlightedRanges = updatedRanges,
          lastUpdated = now,
          Snapshot.documentVersion = Commit.documentVersion commit\<rparr>, t2))"

section \<open>Specification\<close>

subsection \<open>Well-formed edits\<close>

text \<open>
  An edit as the edit-extraction adapter produces it: 1-based lines, the end of the
  replaced range not before its start, a count of added lines that is not negative, and
  no more deleted lines than the replaced range spans.
\<close>

definition wellFormedEdit :: "ContentChange \<Rightarrow> bool" where
  "wellFormedEdit e \<longleftrightarrow>
     1 \<le> ContentChange.startLine e \<and>
     ContentChange.startLine e \<le> ContentChange.endLine e \<and>
     0 \<le> addedLines e \<and>
     deletedLines e \<le> ContentChange.endLine e - ContentChange.startLine e"

subsection \<open>The Batch Applier as the specification words it\<close>

text \<open>
  The edits sorted by \<open>startLine\<close>, descending (edits with the same \<open>startLine\<close> keep
  their order), and the Range Transform folded over the whole annotation list, once per
  edit.
\<close>

definition sortDescendingByStartLine :: "ContentChange list \<Rightarrow> ContentChange list" where
  "sortDescendingByStartLine edits = sort_key (\<lambda>e. - ContentChange.startLine e) edits"

definition transformAll :: "Annotation list \<Rightarrow> ContentChange \<Rightarrow> Annotation list" where
  "transformAll annotations edit =
     concat (map (\<lambda>a. processAnnotationForChangeAndClean a edit) annotations)"

definition applyBatchSpec :: "Annotation list \<Rightarrow> ContentChange list \<Rightarrow> Annotation list" where
  "applyBatchSpec annotations edits =
     foldl transformAll annotations (sortDescendingByStartLine edits)"

subsection \<open>The Batch Applier in ascending order\<close>

text \<open>
  The variant that the source does not implement: the same fold, over the edits sorted
  by \<open>startLine\<close> ascending.
\<close>

definition applyBatchAscending :: "Annotation list \<Rightarrow> ContentChange list \<Rightarrow> Annotation list" where
  "applyBatchAscending annotations edits =
     commitLoop annotations
       (arraySort (\<lambda>a b. ContentChange.startLine a - ContentChange.startLine b) edits)"

subsection \<open>The merge as the specification words it\<close>

text \<open>
  The scan keeps a current range. A next range that starts at most one line after the
  end of the current one is merged into it: the end becomes the greater of the two ends
  and the timestamp the later of the two. Any other next range closes the current one
  and becomes the current range.
\<close>

fun mergeScan :: "Annotation \<Rightarrow> Annotation list \<Rightarrow> Annotation list" where
  "mergeScan current [] = [current]"
| "mergeScan current (next # rest) =
    (if Annotation.startLine next \<le> Annotation.endLine current + 1
     then mergeScan
            (current\<lparr>Annotation.endLine :=
                        max (Annotation.endLine current) (Annotation.endLine next),
                      timestamp := max (timestamp current) (timestamp next)\<rparr>)
            rest
     else current # mergeScan next rest)"

definition mergeSpec :: "Annotation list \<Rightarrow> Annotation list" where
  "mergeSpec annotations =
    (case sort_key Annotation.startLine annotations of
       [] \<Rightarrow> []
     | first # rest \<Rightarrow> mergeScan first rest)"

subsection \<open>Merged lists\<close>

text \<open>
  A list is merged when it is ascending by \<open>startLine\<close> and every annotation starts more
  than one line after the end of the one before it.
\<close>

fun mergedList :: "Annotation list \<Rightarrow> bool" where
  "mergedList [] = True"
| "mergedList [a] = True"
| "mergedList (a # b # rest) =
     (Annotation.startLine a \<le> Annotation.startLine b \<and>
      Annotation.endLine a + 1 < Annotation.startLine b \<and>
      mergedList (b # rest))"

subsection \<open>Overlapping and adjacent ranges, line ranges\<close>

text \<open>
  Two inclusive line ranges overlap when each starts no later than the other ends, and
  are adjacent when one starts on the line after the end of the other.
\<close>

definition overlaps :: "Annotation \<Rightarrow> Annotation \<Rightarrow> bool" where
  "overlaps a b \<longleftrightarrow>
     Annotation.startLine a \<le> Annotation.endLine b \<and>
     Annotation.startLine b \<le> Annotation.endLine a"

definition adjacent :: "Annotation \<Rightarrow> Annotation \<Rightarrow> bool" where
  "adjacent a b \<longleftrightarrow>
     Annotation.endLine a + 1 = Annotation.startLine b \<or>
     Annotation.endLine b + 1 = Annotation.startLine a"

text \<open>The line range of an annotation.\<close>

definition lineRange :: "Annotation \<Rightarrow> int \<times> int" where
  "lineRange a = (Annotation.startLine a, Annotation.endLine a)"

section \<open>Edit extraction\<close>

text \<open>
  The ranges of the host editor's events start at a line that is not negative and end
  no earlier than they start. The edits extracted from such events are well-formed.
\<close>

lemma extractContentChanges_wellFormed:
  assumes "\<forall>ev \<in> set evs. 0 \<le> line (start (range' ev)) \<and>
             line (start (range' ev)) \<le> line (end' (range' ev))"
  shows "\<forall>e \<in> set (extractContentChanges evs). wellFormedEdit e"
  using assms
  by (auto simp: extractContentChanges_def wellFormedEdit_def Let_def)

section \<open>Range Transform\<close>

text \<open>
  Claim C1. For every annotation \<open>a\<close> and every edit \<open>e\<close>, with
  \<open>delta = addedLines e - deletedLines e\<close>, the cases being read in order as the
  decision procedure gives them:
  \<^item> if \<open>a\<close> ends before the edit starts, the result is \<open>[a]\<close>;
  \<^item> otherwise, if \<open>a\<close> starts after the edit ends, the result is \<open>a\<close> with both bounds
    shifted by \<open>delta\<close> (for an annotation and an edit that are not inverted the first
    case cannot hold together with this one, so the second condition alone suffices);
  \<^item> otherwise the result is the list of the before-fragment
    \<open>[startLine a, startLine e - 1]\<close>, present exactly when \<open>startLine a < startLine e\<close>,
    followed by the after-fragment
    \<open>[endLine e + 1 + delta, endLine e + 1 + delta + (endLine a - endLine e) - 1]\<close>,
    present exactly when \<open>endLine a > endLine e\<close>, filtered by \<open>startLine \<le> endLine\<close>;
    the filter removes neither fragment, the result has at most two elements, and it is
    empty when neither fragment condition holds.
\<close>

theorem range_transform_cases:
  "(Annotation.endLine a < ContentChange.startLine e \<longrightarrow>
      processAnnotationForChangeAndClean a e = [a])
   \<and> (\<not> Annotation.endLine a < ContentChange.startLine e \<and>
       Annotation.startLine a > ContentChange.endLine e \<longrightarrow>
      processAnnotationForChangeAndClean a e =
        [a\<lparr>Annotation.startLine := Annotation.startLine a + (addedLines e - deletedLines e),
           Annotation.endLine := Annotation.endLine a + (addedLines e - deletedLines e)\<rparr>])
   \<and> (Annotation.startLine a \<le> Annotation.endLine a \<and>
       ContentChange.startLine e \<le> ContentChange.endLine e \<and>
       Annotation.startLine a > ContentChange.endLine e \<longrightarrow>
      processAnnotationForChangeAndClean a e =
        [a\<lparr>Annotation.startLine := Annotation.startLine a + (addedLines e - deletedLines e),
           Annotation.endLine := Annotation.endLine a + (addedLines e - deletedLines e)\<rparr>])
   \<and> (\<not> Annotation.endLine a < ContentChange.startLine e \<and>
       \<not> Annotation.startLine a > ContentChange.endLine e \<longrightarrow>
      processAnnotationForChangeAndClean a e =
        filter (\<lambda>ann. Annotation.startLine ann \<le> Annotation.endLine ann)
          ((if Annotation.startLine a < ContentChange.startLine e
            then [a\<lparr>Annotation.endLine := ContentChange.startLine e - 1\<rparr>] else []) @
           (if Annotation.endLine a > ContentChange.endLine e
            then [a\<lparr>Annotation.startLine :=
                       ContentChange.endLine e + 1 + (addedLines e - deletedLines e),
                     Annotation.endLine :=
                       ContentChange.endLine e + 1 + (addedLines e - deletedLines e)
                         + (Annotation.endLine a - ContentChange.endLine e) - 1\<rparr>]
            else []))
      \<and> processAnnotationForChangeAndClean a e =
          (if Annotation.startLine a < ContentChange.startLine e
           then [a\<lparr>Annotation.endLine := ContentChange.startLine e - 1\<rparr>] else []) @
          (if Annotation.endLine a > ContentChange.endLine e
           then [a\<lparr>Annotation.startLine :=
                      ContentChange.endLine e + 1 + (addedLines e - deletedLines e),
                    Annotation.endLine :=
                      ContentChange.endLine e + 1 + (addedLines e - deletedLines e)
                        + (Annotation.endLine a - ContentChange.endLine e) - 1\<rparr>]
           else [])
      \<and> length (processAnnotationForChangeAndClean a e) \<le> 2
      \<and> (\<not> Annotation.startLine a < ContentChange.startLine e \<and>
          \<not> Annotation.endLine a > ContentChange.endLine e \<longrightarrow>
         processAnnotationForChangeAndClean a e = []))"
  by (simp add: processAnnotationForChangeAndClean_def Let_def)

text \<open>
  The four cases at concrete inputs: an annotation before the edit, one after it (shifted
  by 1000), the split of \<open>[3,8]\<close> around the edit \<open>[5,6]\<close> that removes one line, and
  \<open>[5,6]\<close> consumed by an edit of \<open>[4,7]\<close>.
\<close>

theorem range_transform_cases_witness:
  "(12::int) < 100 \<and>
   processAnnotationForChangeAndClean
     \<lparr>Annotation.startLine = 10, endLine = 12, timestamp = ''t0'', type = AiGenerated\<rparr>
     \<lparr>ContentChange.startLine = 100, endLine = 100, startCharacter = 0, endCharacter = 0,
      text' = '''', rangeLength = 0, addedLines = 1000, deletedLines = 0\<rparr>
   = [\<lparr>Annotation.startLine = 10, endLine = 12, timestamp = ''t0'', type = AiGenerated\<rparr>]
   \<and> \<not> (2005::int) < 100 \<and> (2000::int) > 100 \<and>
   processAnnotationForChangeAndClean
     \<lparr>Annotation.startLine = 2000, endLine = 2005, timestamp = ''t0'', type = AiGenerated\<rparr>
     \<lparr>ContentChange.startLine = 100, endLine = 100, startCharacter = 0, endCharacter = 0,
      text' = '''', rangeLength = 0, addedLines = 1000, deletedLines = 0\<rparr>
   = [\<lparr>Annotation.startLine = 3000, endLine = 3005, timestamp = ''t0'', type = AiGenerated\<rparr>]
   \<and> \<not> (8::int) < 5 \<and> \<not> (3::int) > 6 \<and>
   processAnnotationForChangeAndClean
     \<lparr>Annotation.startLine = 3, endLine = 8, timestamp = ''t0'', type = AiGenerated\<rparr>
     \<lparr>ContentChange.startLine = 5, endLine = 6, startCharacter = 0, endCharacter = 0,
      text' = '''', rangeLength = 0, addedLines = 0, deletedLines = 1\<rparr>
   = [\<lparr>Annotation.startLine = 3, endLine = 4, timestamp = ''t0'', type = AiGenerated\<rparr>,
      \<lparr>Annotation.startLine = 6, endLine = 7, timestamp = ''t0'', type = AiGenerated\<rparr>]
   \<and> \<not> (6::int) < 4 \<and> \<not> (5::int) > 7 \<and> \<not> (5::int) < 4 \<and> \<not> (6::int) > 7 \<and>
   processAnnotationForChangeAndClean
     \<lparr>Annotation.startLine = 5, endLine = 6, timestamp = ''t0'', type = AiGenerated\<rparr>
     \<lparr>ContentChange.startLine = 4, endLine = 7, startCharacter = 0, endCharacter = 0,
      text' = '''', rangeLength = 0, addedLines = 0, deletedLines = 0\<rparr>
   = []"
  using
    range_transform_cases
      [of "\<lparr>Annotation.startLine = 10, endLine = 12, timestamp = ''t0'', type = AiGenerated\<rparr>"
          "\<lparr>ContentChange.startLine = 100, endLine = 100, startCharacter = 0,
            endCharacter = 0, text' = '''', rangeLength = 0, addedLines = 1000,
            deletedLines = 0\<rparr>"]
    range_transform_cases
      [of "\<lparr>Annotation.startLine = 2000, endLine = 2005, timestamp = ''t0'',
            type = AiGenerated\<rparr>"
          "\<lparr>ContentChange.startLine = 100, endLine = 100, startCharacter = 0,
            endCharacter = 0, text' = '''', rangeLength = 0, addedLines = 1000,
            deletedLines = 0\<rparr>"]
    range_transform_cases
      [of "\<lparr>Annotation.startLine = 3, endLine = 8, timestamp = ''t0'', type = AiGenerated\<rparr>"
          "\<lparr>ContentChange.startLine = 5, endLine = 6, startCharacter = 0,
            endCharacter = 0, text' = '''', rangeLength = 0, addedLines = 0,
            deletedLines = 1\<rparr>"]
    range_transform_cases
      [of "\<lparr>Annotation.startLine = 5, endLine = 6, timestamp = ''t0'', type = AiGenerated\<rparr>"
          "\<lparr>ContentChange.startLine = 4, endLine = 7, startCharacter = 0,
            endCharacter = 0, text' = '''', rangeLength = 0, addedLines = 0,
            deletedLines = 0\<rparr>"]
  by simp

text \<open>
  Claim C10. For every annotation with \<open>1 \<le> startLine \<le> endLine\<close> and every well-formed
  edit, every annotation that the Range Transform returns has \<open>startLine \<ge> 1\<close>.
\<close>

theorem range_transform_startLine_positive:
  assumes "1 \<le> Annotation.startLine a"
    and "Annotation.startLine a \<le> Annotation.endLine a"
    and "wellFormedEdit e"
  shows "\<forall>r \<in> set (processAnnotationForChangeAndClean a e). 1 \<le> Annotation.startLine r"
  using assms
  by (auto simp: processAnnotationForChangeAndClean_def Let_def wellFormedEdit_def)

text \<open>
  An annotation \<open>[3,8]\<close> and the edit that replaces the three lines \<open>[1,3]\<close> by nothing:
  the rest \<open>[4,8]\<close> moves up to \<open>[2,6]\<close>, the smallest start a tail can get.
\<close>

theorem range_transform_startLine_positive_witness:
  "1 \<le> Annotation.startLine
          \<lparr>Annotation.startLine = 3, endLine = 8, timestamp = ''t0'', type = AiGenerated\<rparr>
   \<and> wellFormedEdit
        \<lparr>ContentChange.startLine = 1, endLine = 3, startCharacter = 0, endCharacter = 0,
         text' = '''', rangeLength = 9, addedLines = 0, deletedLines = 2\<rparr>
   \<and> list_all (\<lambda>r. 1 \<le> Annotation.startLine r)
        (processAnnotationForChangeAndClean
          \<lparr>Annotation.startLine = 3, endLine = 8, timestamp = ''t0'', type = AiGenerated\<rparr>
          \<lparr>ContentChange.startLine = 1, endLine = 3, startCharacter = 0, endCharacter = 0,
           text' = '''', rangeLength = 9, addedLines = 0, deletedLines = 2\<rparr>)
   \<and> processAnnotationForChangeAndClean
          \<lparr>Annotation.startLine = 3, endLine = 8, timestamp = ''t0'', type = AiGenerated\<rparr>
          \<lparr>ContentChange.startLine = 1, endLine = 3, startCharacter = 0, endCharacter = 0,
           text' = '''', rangeLength = 9, addedLines = 0, deletedLines = 2\<rparr>
       = [\<lparr>Annotation.startLine = 2, endLine = 6, timestamp = ''t0'', type = AiGenerated\<rparr>]"
proof -
  let ?a = "\<lparr>Annotation.startLine = 3, endLine = 8, timestamp = ''t0'', type = AiGenerated\<rparr>"
  let ?e = "\<lparr>ContentChange.startLine = 1, endLine = 3, startCharacter = 0, endCharacter = 0,
             text' = '''', rangeLength = 9, addedLines = 0, deletedLines = 2\<rparr>"
  have h1: "1 \<le> Annotation.startLine ?a" by simp
  have h2: "Annotation.startLine ?a \<le> Annotation.endLine ?a" by simp
  have h3: "wellFormedEdit ?e" by (simp add: wellFormedEdit_def)
  have val: "processAnnotationForChangeAndClean ?a ?e
      = [\<lparr>Annotation.startLine = 2, endLine = 6, timestamp = ''t0'', type = AiGenerated\<rparr>]"
    by (simp add: processAnnotationForChangeAndClean_def Let_def)
  from range_transform_startLine_positive [OF h1 h2 h3] h1 h3 val show ?thesis
    unfolding list_all_iff by blast
qed

section \<open>Annotation Synthesizer\<close>

lemma addLoop_ranges:
  "map (\<lambda>a. (Annotation.startLine a, Annotation.endLine a)) (fst (addLoop clk t acc cs))
     = map (\<lambda>a. (Annotation.startLine a, Annotation.endLine a)) acc
       @ map (\<lambda>e. (ContentChange.startLine e, ContentChange.startLine e + addedLines e)) cs"
  by (induction cs arbitrary: t acc) (simp_all add: dateNow_def)

lemma upt_shift: "[t..<t + Suc n] = t # [Suc t..<Suc t + n]"
  by (simp add: upt_rec [of t])

lemma addLoop_timestamps:
  "map timestamp (fst (addLoop clk t acc cs))
     = map timestamp acc @ map clk [t..<t + length cs]"
proof (induction cs arbitrary: t acc)
  case Nil
  then show ?case by simp
next
  case (Cons c cs)
  have "[t..<t + length (c # cs)] = t # [Suc t..<Suc t + length cs]"
    using upt_shift [of t "length cs"] by simp
  with Cons.IH [of "Suc t"] show ?case
    by (simp add: dateNow_def)
qed

lemma addLoop_types:
  "map type (fst (addLoop clk t acc cs))
     = map type acc @ replicate (length cs) AiGenerated"
  by (induction cs arbitrary: t acc) (simp_all add: dateNow_def replicate_app_Cons_same)

lemma addLoop_clock: "snd (addLoop clk t acc cs) = t + length cs"
  by (induction cs arbitrary: t acc) (simp_all add: dateNow_def)

text \<open>
  Claim C8. For every edit list, the Annotation Synthesizer returns one annotation per
  edit, in the order of the edit list: the \<open>i\<close>-th annotation has
  \<open>startLine = startLine e\<close> and \<open>endLine = startLine e + addedLines e\<close> for the \<open>i\<close>-th
  edit \<open>e\<close>, its timestamp is the \<open>i\<close>-th reading of the clock during the call, and the
  output is as long as the edit list.
\<close>

theorem synthesizer_one_annotation_per_edit:
  "map (\<lambda>a. (Annotation.startLine a, Annotation.endLine a))
       (fst (addAnnotationsForSignificantChanges clk t edits))
     = map (\<lambda>e. (ContentChange.startLine e, ContentChange.startLine e + addedLines e)) edits
   \<and> length (fst (addAnnotationsForSignificantChanges clk t edits)) = length edits
   \<and> map timestamp (fst (addAnnotationsForSignificantChanges clk t edits))
       = map clk [t..<t + length edits]
   \<and> map type (fst (addAnnotationsForSignificantChanges clk t edits))
       = replicate (length edits) AiGenerated
   \<and> snd (addAnnotationsForSignificantChanges clk t edits) = t + length edits"
proof -
  let ?r = "fst (addAnnotationsForSignificantChanges clk t edits)"
  have r: "map (\<lambda>a. (Annotation.startLine a, Annotation.endLine a)) ?r
     = map (\<lambda>e. (ContentChange.startLine e, ContentChange.startLine e + addedLines e)) edits"
    unfolding addAnnotationsForSignificantChanges_def
    using addLoop_ranges [of clk t "[]" edits] by simp
  have "length ?r = length (map (\<lambda>a. (Annotation.startLine a, Annotation.endLine a)) ?r)"
    by simp
  also have "\<dots> = length edits"
    unfolding r by simp
  finally have l: "length ?r = length edits" .
  have ts: "map timestamp ?r = map clk [t..<t + length edits]"
    unfolding addAnnotationsForSignificantChanges_def
    using addLoop_timestamps [of clk t "[]" edits] by simp
  have ty: "map type ?r = replicate (length edits) AiGenerated"
    unfolding addAnnotationsForSignificantChanges_def
    using addLoop_types [of clk t "[]" edits] by simp
  have c: "snd (addAnnotationsForSignificantChanges clk t edits) = t + length edits"
    unfolding addAnnotationsForSignificantChanges_def by (rule addLoop_clock)
  from r l ts ty c show ?thesis by blast
qed

section \<open>Batch Applier\<close>

subsection \<open>The sort of the source is the stable sort by key\<close>

lemma insertBy_insort_key:
  assumes "\<And>x y. cmp x y \<le> 0 \<longleftrightarrow> k x \<le> (k y :: int)"
  shows "insertBy cmp x ys = insort_key k x ys"
  using assms by (induction ys) simp_all

lemma arraySort_sort_key:
  assumes "\<And>x y. cmp x y \<le> 0 \<longleftrightarrow> k x \<le> (k y :: int)"
  shows "arraySort cmp xs = sort_key k xs"
proof -
  have "insertBy cmp = insort_key k"
    using insertBy_insort_key [of cmp k, OF assms] by (intro ext)
  then show ?thesis
    by (simp add: arraySort_def sort_key_def)
qed

lemma arraySort_ascending:
  "arraySort (\<lambda>a b. Annotation.startLine a - Annotation.startLine b) xs
     = sort_key Annotation.startLine xs"
  by (rule arraySort_sort_key) simp

lemma arraySort_descending:
  "arraySort (\<lambda>a b. ContentChange.startLine b - ContentChange.startLine a) xs
     = sort_key (\<lambda>e. - ContentChange.startLine e) xs"
  by (rule arraySort_sort_key) simp

subsection \<open>The loops are a map and a fold\<close>

lemma contentChangeLoop_eq:
  "contentChangeLoop change acc annotations
     = acc @ concat (map (\<lambda>a. processAnnotationForChangeAndClean a change) annotations)"
  by (induction annotations arbitrary: acc) simp_all

lemma updateAndCleanAnnotationsForContentChange_eq:
  "updateAndCleanAnnotationsForContentChange annotations change
     = concat (map (\<lambda>a. processAnnotationForChangeAndClean a change) annotations)"
  by (simp add: updateAndCleanAnnotationsForContentChange_def contentChangeLoop_eq)

lemma commitLoop_eq:
  "commitLoop annotations changes
     = foldl updateAndCleanAnnotationsForContentChange annotations changes"
  by (induction changes arbitrary: annotations) simp_all

text \<open>
  Claim C2. For every annotation list and every edit list,
  \<open>updateAndCleanAnnotationsForCommit\<close> is the function that sorts the edits by
  \<open>startLine\<close> in descending order and folds the Range Transform over the whole
  annotation list once per edit, in that order. The sorted list is a rearrangement of
  the edits in which no edit comes before one with a greater \<open>startLine\<close>.
\<close>

theorem batch_applier_is_descending_fold:
  "updateAndCleanAnnotationsForCommit annotations edits = applyBatchSpec annotations edits
   \<and> mset (sortDescendingByStartLine edits) = mset edits
   \<and> sorted (map ContentChange.startLine (rev (sortDescendingByStartLine edits)))"
proof -
  have t: "updateAndCleanAnnotationsForContentChange = transformAll"
    by (intro ext) (simp add: updateAndCleanAnnotationsForContentChange_eq transformAll_def)
  have eq: "updateAndCleanAnnotationsForCommit annotations edits
              = applyBatchSpec annotations edits"
    by (simp add: updateAndCleanAnnotationsForCommit_def applyBatchSpec_def
        sortDescendingByStartLine_def arraySort_descending commitLoop_eq t)
  have m: "mset (sortDescendingByStartLine edits) = mset edits"
    by (simp add: sortDescendingByStartLine_def)
  have "sorted (map (\<lambda>e. - ContentChange.startLine e) (sortDescendingByStartLine edits))"
    by (simp add: sortDescendingByStartLine_def)
  then have "sorted_wrt (\<lambda>a b. ContentChange.startLine b \<le> ContentChange.startLine a)
               (sortDescendingByStartLine edits)"
    by (simp add: sorted_map)
  then have s: "sorted (map ContentChange.startLine (rev (sortDescendingByStartLine edits)))"
    by (simp add: sorted_map sorted_wrt_rev)
  from eq m s show ?thesis by blast
qed

subsection \<open>Ascending order is not equivalent\<close>

text \<open>
  Claim C5. There are an annotation list and two edits, the lower one with a line shift
  that is not zero and the higher one touching the annotation at its coordinates of
  before the batch, for which the ascending fold and
  \<open>updateAndCleanAnnotationsForCommit\<close> give different annotation lists: the annotation
  \<open>[8,10]\<close>, three lines inserted at line 5, and a replacement without line change at
  line 10. Descending order gives \<open>[11,12]\<close>, ascending order \<open>[11,13]\<close>.
\<close>

theorem ascending_order_differs:
  "\<exists>annotations e1 e2.
     annotations =
       [\<lparr>Annotation.startLine = 8, endLine = 10, timestamp = ''t0'', type = AiGenerated\<rparr>]
     \<and> e1 = \<lparr>ContentChange.startLine = 5, endLine = 5, startCharacter = 0, endCharacter = 0,
             text' = [CHR 0x0A, CHR 0x0A, CHR 0x0A], rangeLength = 0, addedLines = 3, deletedLines = 0\<rparr>
     \<and> e2 = \<lparr>ContentChange.startLine = 10, endLine = 10, startCharacter = 0,
             endCharacter = 1, text' = ''x'', rangeLength = 1, addedLines = 0,
             deletedLines = 0\<rparr>
     \<and> ContentChange.endLine e1 < ContentChange.startLine e2
     \<and> addedLines e1 - deletedLines e1 \<noteq> 0
     \<and> updateAndCleanAnnotationsForCommit annotations [e1, e2] =
         [\<lparr>Annotation.startLine = 11, endLine = 12, timestamp = ''t0'', type = AiGenerated\<rparr>]
     \<and> applyBatchAscending annotations [e1, e2] =
         [\<lparr>Annotation.startLine = 11, endLine = 13, timestamp = ''t0'', type = AiGenerated\<rparr>]
     \<and> applyBatchAscending annotations [e1, e2]
         \<noteq> updateAndCleanAnnotationsForCommit annotations [e1, e2]"
  by (simp add: updateAndCleanAnnotationsForCommit_def applyBatchAscending_def arraySort_def
      updateAndCleanAnnotationsForContentChange_def processAnnotationForChangeAndClean_def
      Let_def)

section \<open>Range Merger\<close>

subsection \<open>The loop of the source is the scan\<close>

lemma squashLoop_mergeScan:
  "squashLoop (pre @ [l]) rest = pre @ mergeScan l rest"
proof (induction rest arbitrary: pre l)
  case Nil
  then show ?case by simp
next
  case (Cons current rest)
  show ?case
  proof (cases "Annotation.startLine current \<le> Annotation.endLine l + 1")
    case True
    have "(if timestamp l < timestamp current then timestamp current else timestamp l)
            = max (timestamp l) (timestamp current)"
      by (auto simp: max_def)
    with True Cons.IH [of pre] show ?thesis
      by (simp add: Let_def)
  next
    case False
    with Cons.IH [of "pre @ [l]" current] show ?thesis
      by (simp add: Let_def)
  qed
qed

lemma squash_eq_mergeSpec:
  "squashOverlappingAnnotations annotations = mergeSpec annotations"
proof (cases "length annotations \<le> 1")
  case True
  then consider "annotations = []" | x where "annotations = [x]"
    by (cases annotations) (auto simp: le_Suc_eq)
  then show ?thesis
    by cases (simp_all add: squashOverlappingAnnotations_def mergeSpec_def)
next
  case False
  have "squashLoop [first] rest = mergeScan first rest" for first rest
    using squashLoop_mergeScan [of "[]" first rest] by simp
  with False show ?thesis
    by (simp add: squashOverlappingAnnotations_def mergeSpec_def arraySort_ascending
        split: list.split)
qed

text \<open>
  Claim C4. For every annotation list, \<open>squashOverlappingAnnotations\<close> is the interval
  merge of the specification: the list sorted ascending by \<open>startLine\<close> and scanned from
  the left by \<open>mergeScan\<close>. The empty list and a list of one annotation are returned as
  they are.
\<close>

theorem range_merger_is_interval_merge:
  "squashOverlappingAnnotations annotations = mergeSpec annotations
   \<and> squashOverlappingAnnotations [] = []
   \<and> squashOverlappingAnnotations [a] = [a]"
  by (simp add: squash_eq_mergeSpec mergeSpec_def)

subsection \<open>The merge returns a merged list\<close>

lemma mergeScan_not_Nil: "mergeScan current rest \<noteq> []"
  by (induction rest arbitrary: current) simp_all

lemma mergeScan_hd:
  "Annotation.startLine (hd (mergeScan current rest)) = Annotation.startLine current"
  by (induction rest arbitrary: current) simp_all

lemma mergeScan_merged:
  "sorted (map Annotation.startLine (current # rest)) \<Longrightarrow>
   mergedList (mergeScan current rest)"
proof (induction rest arbitrary: current)
  case Nil
  then show ?case by simp
next
  case (Cons n rest)
  show ?case
  proof (cases "Annotation.startLine n \<le> Annotation.endLine current + 1")
    case True
    let ?c = "current\<lparr>Annotation.endLine :=
                 max (Annotation.endLine current) (Annotation.endLine n),
               timestamp := max (timestamp current) (timestamp n)\<rparr>"
    from Cons.prems have "sorted (map Annotation.startLine (?c # rest))"
      by auto
    with True Cons.IH [of ?c] show ?thesis by simp
  next
    case False
    from Cons.prems have s: "sorted (map Annotation.startLine (n # rest))"
      and le: "Annotation.startLine current \<le> Annotation.startLine n"
      by auto
    obtain c rest' where c: "mergeScan n rest = c # rest'"
      "Annotation.startLine c = Annotation.startLine n"
      using mergeScan_hd [of n rest] mergeScan_not_Nil [of n rest]
      by (cases "mergeScan n rest") auto
    from Cons.IH [OF s] c False le show ?thesis by simp
  qed
qed

lemma mergedList_sorted: "mergedList xs \<Longrightarrow> sorted (map Annotation.startLine xs)"
proof (induction xs rule: mergedList.induct)
  case (3 a b rest)
  then have "sorted (map Annotation.startLine (b # rest))" by simp
  with 3 show ?case by auto
qed simp_all

lemma mergeScan_id: "mergedList (current # rest) \<Longrightarrow> mergeScan current rest = current # rest"
  by (induction rest arbitrary: current) auto

lemma mergeSpec_id:
  assumes "mergedList xs"
  shows "mergeSpec xs = xs"
proof -
  have "sort_key Annotation.startLine xs = xs"
    using assms by (intro sort_key_id_if_sorted mergedList_sorted)
  with assms show ?thesis
    unfolding mergeSpec_def by (cases xs) (simp_all add: mergeScan_id)
qed

lemma mergeSpec_merged: "mergedList (mergeSpec xs)"
proof (cases "sort_key Annotation.startLine xs")
  case Nil
  then show ?thesis by (simp add: mergeSpec_def)
next
  case (Cons first rest)
  have "sorted (map Annotation.startLine (sort_key Annotation.startLine xs))"
    by (rule sorted_sort_key)
  with Cons have "sorted (map Annotation.startLine (first # rest))" by simp
  from mergeScan_merged [OF this] Cons show ?thesis
    by (simp add: mergeSpec_def)
qed

text \<open>
  Claim C6. For every annotation list \<open>X\<close>, merging the merged list changes nothing:
  \<open>squashOverlappingAnnotations (squashOverlappingAnnotations X) =
  squashOverlappingAnnotations X\<close>.
\<close>

theorem range_merger_idempotent:
  "squashOverlappingAnnotations (squashOverlappingAnnotations X)
     = squashOverlappingAnnotations X"
  unfolding squash_eq_mergeSpec
  by (rule mergeSpec_id) (rule mergeSpec_merged)

section \<open>Snapshot Lifecycle\<close>

subsection \<open>The annotation list that applyChange returns\<close>

lemma applyChange_ranges:
  "highlightedRanges (fst (applyChange clk t s c)) =
     squashOverlappingAnnotations
       (updateAndCleanAnnotationsForCommit (highlightedRanges s) (contentChanges c) @
        (if isSignificant c
         then fst (addAnnotationsForSignificantChanges clk t (contentChanges c))
         else []))"
  by (simp add: applyChange_def Let_def case_prod_beta)

lemma applyChange_version:
  "Snapshot.documentVersion (fst (applyChange clk t s c)) = Commit.documentVersion c"
  by (simp add: applyChange_def Let_def case_prod_beta)

lemma applyChange_lastUpdated:
  "lastUpdated (fst (applyChange clk t s c)) =
     clk (t + (if isSignificant c then length (contentChanges c) else 0))"
  by (simp add: applyChange_def Let_def case_prod_beta dateNow_def
      addAnnotationsForSignificantChanges_def addLoop_clock)

subsection \<open>Ranges that are not inverted stay so\<close>

lemma transform_valid:
  assumes "Annotation.startLine a \<le> Annotation.endLine a"
    and "r \<in> set (processAnnotationForChangeAndClean a e)"
  shows "Annotation.startLine r \<le> Annotation.endLine r"
  using assms
  by (auto simp: processAnnotationForChangeAndClean_def Let_def split: if_splits)

lemma contentChange_valid:
  assumes "\<forall>a \<in> set annotations. Annotation.startLine a \<le> Annotation.endLine a"
  shows "\<forall>r \<in> set (updateAndCleanAnnotationsForContentChange annotations e).
           Annotation.startLine r \<le> Annotation.endLine r"
  using assms transform_valid
  by (auto simp: updateAndCleanAnnotationsForContentChange_eq)

lemma commitLoop_valid:
  assumes "\<forall>a \<in> set annotations. Annotation.startLine a \<le> Annotation.endLine a"
  shows "\<forall>r \<in> set (commitLoop annotations es).
           Annotation.startLine r \<le> Annotation.endLine r"
  using assms
proof (induction es arbitrary: annotations)
  case Nil
  then show ?case by simp
next
  case (Cons e es)
  from Cons.IH [OF contentChange_valid [OF Cons.prems]] show ?case by simp
qed

lemma commit_valid:
  assumes "\<forall>a \<in> set annotations. Annotation.startLine a \<le> Annotation.endLine a"
  shows "\<forall>r \<in> set (updateAndCleanAnnotationsForCommit annotations es).
           Annotation.startLine r \<le> Annotation.endLine r"
  unfolding updateAndCleanAnnotationsForCommit_def Let_def
  by (rule commitLoop_valid) (rule assms)

lemma synthesized_valid:
  assumes "\<forall>e \<in> set es. 0 \<le> addedLines e"
  shows "\<forall>r \<in> set (fst (addAnnotationsForSignificantChanges clk t es)).
           Annotation.startLine r \<le> Annotation.endLine r"
proof
  fix r
  assume "r \<in> set (fst (addAnnotationsForSignificantChanges clk t es))"
  then have "(Annotation.startLine r, Annotation.endLine r)
      \<in> set (map (\<lambda>a. (Annotation.startLine a, Annotation.endLine a))
               (fst (addAnnotationsForSignificantChanges clk t es)))"
    by (simp add: image_iff) blast
  also have "map (\<lambda>a. (Annotation.startLine a, Annotation.endLine a))
               (fst (addAnnotationsForSignificantChanges clk t es))
      = map (\<lambda>e. (ContentChange.startLine e, ContentChange.startLine e + addedLines e)) es"
    unfolding addAnnotationsForSignificantChanges_def
    using addLoop_ranges [of clk t "[]" es] by simp
  finally obtain e where "e \<in> set es"
    "Annotation.startLine r = ContentChange.startLine e"
    "Annotation.endLine r = ContentChange.startLine e + addedLines e"
    by auto
  with assms show "Annotation.startLine r \<le> Annotation.endLine r" by auto
qed

lemma mergeScan_valid:
  assumes "Annotation.startLine current \<le> Annotation.endLine current"
    and "\<forall>a \<in> set rest. Annotation.startLine a \<le> Annotation.endLine a"
  shows "\<forall>r \<in> set (mergeScan current rest). Annotation.startLine r \<le> Annotation.endLine r"
  using assms
proof (induction rest arbitrary: current)
  case Nil
  then show ?case by simp
next
  case (Cons n rest)
  let ?c = "current\<lparr>Annotation.endLine :=
               max (Annotation.endLine current) (Annotation.endLine n),
             timestamp := max (timestamp current) (timestamp n)\<rparr>"
  from Cons.prems have rest: "\<forall>a \<in> set rest. Annotation.startLine a \<le> Annotation.endLine a"
    and n: "Annotation.startLine n \<le> Annotation.endLine n"
    by simp_all
  from Cons.prems(1) have "Annotation.startLine ?c \<le> Annotation.endLine ?c"
    by simp
  from Cons.IH [OF this rest] Cons.IH [OF n rest] Cons.prems(1) show ?case
    by simp
qed

lemma squash_valid:
  assumes "\<forall>a \<in> set annotations. Annotation.startLine a \<le> Annotation.endLine a"
  shows "\<forall>r \<in> set (squashOverlappingAnnotations annotations).
           Annotation.startLine r \<le> Annotation.endLine r"
proof (cases "sort_key Annotation.startLine annotations")
  case Nil
  then show ?thesis by (simp add: squash_eq_mergeSpec mergeSpec_def)
next
  case (Cons first rest)
  have "set (first # rest) = set annotations"
    using Cons set_sort [of Annotation.startLine annotations] by simp
  with assms have "Annotation.startLine first \<le> Annotation.endLine first"
    and "\<forall>a \<in> set rest. Annotation.startLine a \<le> Annotation.endLine a"
    by auto
  from mergeScan_valid [OF this] Cons show ?thesis
    by (simp add: squash_eq_mergeSpec mergeSpec_def)
qed

subsection \<open>Merged lists have no two ranges that touch\<close>

lemma mergedList_apart:
  "mergedList xs \<Longrightarrow>
   sorted_wrt (\<lambda>a b. Annotation.endLine a + 1 < Annotation.startLine b) xs"
proof (induction xs rule: mergedList.induct)
  case (3 a b rest)
  from "3.prems" have m: "mergedList (b # rest)"
    and ab: "Annotation.endLine a + 1 < Annotation.startLine b"
    by simp_all
  from mergedList_sorted [OF m]
  have "\<forall>c \<in> set rest. Annotation.startLine b \<le> Annotation.startLine c"
    by simp
  with ab have "\<forall>c \<in> set (b # rest). Annotation.endLine a + 1 < Annotation.startLine c"
    by auto
  with "3.IH" [OF m] show ?case by simp
qed simp_all

lemma mergedList_no_touch:
  assumes "mergedList xs" and "i < length xs" and "j < length xs" and "i \<noteq> j"
    and valid: "\<forall>a \<in> set xs. Annotation.startLine a \<le> Annotation.endLine a"
  shows "\<not> overlaps (xs ! i) (xs ! j) \<and> \<not> adjacent (xs ! i) (xs ! j)"
proof -
  have lt: "Annotation.endLine (xs ! k) + 1 < Annotation.startLine (xs ! l)"
    if "k < l" "l < length xs" for k l
    using mergedList_apart [OF assms(1)] that by (simp add: sorted_wrt_iff_nth_less)
  from valid assms(2,3)
  have vi: "Annotation.startLine (xs ! i) \<le> Annotation.endLine (xs ! i)"
    and vj: "Annotation.startLine (xs ! j) \<le> Annotation.endLine (xs ! j)"
    by simp_all
  from assms(4) consider "i < j" | "j < i" by arith
  then show ?thesis
  proof cases
    case 1
    from lt [OF 1 assms(3)] vi vj show ?thesis
      by (simp add: overlaps_def adjacent_def)
  next
    case 2
    from lt [OF 2 assms(2)] vi vj show ?thesis
      by (simp add: overlaps_def adjacent_def)
  qed
qed

text \<open>
  Claim C3. For every snapshot whose annotations have \<open>startLine \<le> endLine\<close> and every
  commit whose edits are well-formed, the snapshot that \<open>applyChange\<close> returns satisfies
  the Snapshot invariant: every annotation of the result has \<open>startLine \<le> endLine\<close>, and
  no two annotations at different positions of the result overlap or are adjacent.
\<close>

theorem applyChange_snapshot_invariant:
  assumes "\<forall>a \<in> set (highlightedRanges s). Annotation.startLine a \<le> Annotation.endLine a"
    and "\<forall>e \<in> set (contentChanges c). wellFormedEdit e"
  shows "(\<forall>a \<in> set (highlightedRanges (fst (applyChange clk t s c))).
            Annotation.startLine a \<le> Annotation.endLine a)
    \<and> (\<forall>i j. i < length (highlightedRanges (fst (applyChange clk t s c))) \<and>
              j < length (highlightedRanges (fst (applyChange clk t s c))) \<and> i \<noteq> j \<longrightarrow>
          \<not> overlaps (highlightedRanges (fst (applyChange clk t s c)) ! i)
                      (highlightedRanges (fst (applyChange clk t s c)) ! j) \<and>
          \<not> adjacent (highlightedRanges (fst (applyChange clk t s c)) ! i)
                      (highlightedRanges (fst (applyChange clk t s c)) ! j))"
proof -
  let ?shifted = "updateAndCleanAnnotationsForCommit (highlightedRanges s) (contentChanges c)"
  let ?new = "if isSignificant c
              then fst (addAnnotationsForSignificantChanges clk t (contentChanges c))
              else []"
  from assms(2) have "\<forall>e \<in> set (contentChanges c). 0 \<le> addedLines e"
    by (simp add: wellFormedEdit_def)
  from synthesized_valid [OF this, of clk t]
  have new: "\<forall>r \<in> set ?new. Annotation.startLine r \<le> Annotation.endLine r"
    by (cases "isSignificant c") simp_all
  from commit_valid [OF assms(1)]
  have "\<forall>r \<in> set ?shifted. Annotation.startLine r \<le> Annotation.endLine r" .
  with new have "\<forall>r \<in> set (?shifted @ ?new). Annotation.startLine r \<le> Annotation.endLine r"
    by auto
  from squash_valid [OF this]
  have valid: "\<forall>a \<in> set (highlightedRanges (fst (applyChange clk t s c))).
                 Annotation.startLine a \<le> Annotation.endLine a"
    unfolding applyChange_ranges .
  have "mergedList (highlightedRanges (fst (applyChange clk t s c)))"
    unfolding applyChange_ranges squash_eq_mergeSpec by (rule mergeSpec_merged)
  with valid show ?thesis
    using mergedList_no_touch
      [of "highlightedRanges (fst (applyChange clk t s c))"] by blast
qed

text \<open>
  A snapshot with the annotations \<open>[3,8]\<close> and \<open>[20,25]\<close> and a significant commit that
  inserts two lines at line 9: \<open>[20,25]\<close> moves to \<open>[22,27]\<close>, the new annotation \<open>[9,11]\<close>
  is merged into \<open>[3,8]\<close>, and the two annotations of the result are apart.
\<close>

theorem applyChange_snapshot_invariant_witness:
  "list_all (\<lambda>a. Annotation.startLine a \<le> Annotation.endLine a)
     (highlightedRanges
       \<lparr>highlightedRanges =
          [\<lparr>Annotation.startLine = 3, endLine = 8, timestamp = ''2024-01-01'',
            type = AiGenerated\<rparr>,
           \<lparr>Annotation.startLine = 20, endLine = 25, timestamp = ''2024-01-01'',
            type = AiGenerated\<rparr>],
        lastUpdated = ''2024-01-01'', Snapshot.documentVersion = 1\<rparr>)
   \<and> list_all wellFormedEdit
     (contentChanges
       \<lparr>Commit.documentVersion = 2, isSignificant = True,
        contentChanges =
          [\<lparr>ContentChange.startLine = 9, endLine = 9, startCharacter = 0, endCharacter = 0,
            text' = [CHR 0x0A, CHR 0x0A], rangeLength = 0, addedLines = 2,
            deletedLines = 0\<rparr>]\<rparr>)
   \<and> highlightedRanges (fst (applyChange (fixedClock ''2024-01-02'') 0
       \<lparr>highlightedRanges =
          [\<lparr>Annotation.startLine = 3, endLine = 8, timestamp = ''2024-01-01'',
            type = AiGenerated\<rparr>,
           \<lparr>Annotation.startLine = 20, endLine = 25, timestamp = ''2024-01-01'',
            type = AiGenerated\<rparr>],
        lastUpdated = ''2024-01-01'', Snapshot.documentVersion = 1\<rparr>
       \<lparr>Commit.documentVersion = 2, isSignificant = True,
        contentChanges =
          [\<lparr>ContentChange.startLine = 9, endLine = 9, startCharacter = 0, endCharacter = 0,
            text' = [CHR 0x0A, CHR 0x0A], rangeLength = 0, addedLines = 2,
            deletedLines = 0\<rparr>]\<rparr>))
     = [\<lparr>Annotation.startLine = 3, endLine = 11, timestamp = ''2024-01-02'',
         type = AiGenerated\<rparr>,
        \<lparr>Annotation.startLine = 22, endLine = 27, timestamp = ''2024-01-01'',
         type = AiGenerated\<rparr>]
   \<and> \<not> overlaps
        \<lparr>Annotation.startLine = 3, endLine = 11, timestamp = ''2024-01-02'',
         type = AiGenerated\<rparr>
        \<lparr>Annotation.startLine = 22, endLine = 27, timestamp = ''2024-01-01'',
         type = AiGenerated\<rparr>
   \<and> \<not> adjacent
        \<lparr>Annotation.startLine = 3, endLine = 11, timestamp = ''2024-01-02'',
         type = AiGenerated\<rparr>
        \<lparr>Annotation.startLine = 22, endLine = 27, timestamp = ''2024-01-01'',
         type = AiGenerated\<rparr>"
proof -
  let ?s = "\<lparr>highlightedRanges =
          [\<lparr>Annotation.startLine = 3, endLine = 8, timestamp = ''2024-01-01'',
            type = AiGenerated\<rparr>,
           \<lparr>Annotation.startLine = 20, endLine = 25, timestamp = ''2024-01-01'',
            type = AiGenerated\<rparr>],
        lastUpdated = ''2024-01-01'', Snapshot.documentVersion = 1\<rparr>"
  let ?c = "\<lparr>Commit.documentVersion = 2, isSignificant = True,
        contentChanges =
          [\<lparr>ContentChange.startLine = 9, endLine = 9, startCharacter = 0, endCharacter = 0,
            text' = [CHR 0x0A, CHR 0x0A], rangeLength = 0, addedLines = 2,
            deletedLines = 0\<rparr>]\<rparr>"
  let ?R = "highlightedRanges (fst (applyChange (fixedClock ''2024-01-02'') 0 ?s ?c))"
  have h1: "\<forall>a \<in> set (highlightedRanges ?s). Annotation.startLine a \<le> Annotation.endLine a"
    by simp
  have h2: "\<forall>e \<in> set (contentChanges ?c). wellFormedEdit e"
    by (simp add: wellFormedEdit_def)
  have val: "?R = [\<lparr>Annotation.startLine = 3, endLine = 11, timestamp = ''2024-01-02'',
         type = AiGenerated\<rparr>,
        \<lparr>Annotation.startLine = 22, endLine = 27, timestamp = ''2024-01-01'',
         type = AiGenerated\<rparr>]"
    by (simp add: applyChange_def updateAndCleanAnnotationsForCommit_def arraySort_def
        updateAndCleanAnnotationsForContentChange_def processAnnotationForChangeAndClean_def
        addAnnotationsForSignificantChanges_def dateNow_def squashOverlappingAnnotations_def
        fixedClock_def Let_def)
  from applyChange_snapshot_invariant [OF h1 h2, of "fixedClock ''2024-01-02''" 0]
  have "\<forall>i j. i < length ?R \<and> j < length ?R \<and> i \<noteq> j \<longrightarrow>
          \<not> overlaps (?R ! i) (?R ! j) \<and> \<not> adjacent (?R ! i) (?R ! j)"
    by blast
  then have "0 < length ?R \<and> 1 < length ?R \<and> (0::nat) \<noteq> 1 \<longrightarrow>
          \<not> overlaps (?R ! 0) (?R ! 1) \<and> \<not> adjacent (?R ! 0) (?R ! 1)"
    by blast
  then have apart: "\<not> overlaps (?R ! 0) (?R ! 1) \<and> \<not> adjacent (?R ! 0) (?R ! 1)"
    unfolding val by simp
  then have "\<not> overlaps
        \<lparr>Annotation.startLine = 3, endLine = 11, timestamp = ''2024-01-02'',
         type = AiGenerated\<rparr>
        \<lparr>Annotation.startLine = 22, endLine = 27, timestamp = ''2024-01-01'',
         type = AiGenerated\<rparr>
   \<and> \<not> adjacent
        \<lparr>Annotation.startLine = 3, endLine = 11, timestamp = ''2024-01-02'',
         type = AiGenerated\<rparr>
        \<lparr>Annotation.startLine = 22, endLine = 27, timestamp = ''2024-01-01'',
         type = AiGenerated\<rparr>"
    unfolding val by simp
  with h1 h2 val show ?thesis
    unfolding list_all_iff by blast
qed

subsection \<open>A commit without edits\<close>

text \<open>
  Claim C7 says that a commit with an empty edit list and \<open>isSignificant = false\<close>
  returns the annotation list of the input snapshot. \<open>applyChange\<close> merges in every
  call, so the claim fails on a snapshot whose list is not in merged form: the list
  \<open>[10,12], [1,3]\<close>, which is not ascending, comes back as \<open>[1,3], [10,12]\<close>, and the
  adjacent annotations \<open>[1,3], [4,6]\<close> come back as the one annotation \<open>[1,6]\<close>.
\<close>

theorem empty_commit_identity_counterexample:
  "contentChanges
     \<lparr>Commit.documentVersion = 2, isSignificant = False, contentChanges = []\<rparr> = []
   \<and> \<not> isSignificant
     \<lparr>Commit.documentVersion = 2, isSignificant = False, contentChanges = []\<rparr>
   \<and> highlightedRanges (fst (applyChange (fixedClock ''2024-01-02'') 0
       \<lparr>highlightedRanges =
          [\<lparr>Annotation.startLine = 10, endLine = 12, timestamp = ''2024-01-01'',
            type = AiGenerated\<rparr>,
           \<lparr>Annotation.startLine = 1, endLine = 3, timestamp = ''2024-01-01'',
            type = AiGenerated\<rparr>],
        lastUpdated = ''2024-01-01'', Snapshot.documentVersion = 1\<rparr>
       \<lparr>Commit.documentVersion = 2, isSignificant = False, contentChanges = []\<rparr>))
     \<noteq> highlightedRanges
       \<lparr>highlightedRanges =
          [\<lparr>Annotation.startLine = 10, endLine = 12, timestamp = ''2024-01-01'',
            type = AiGenerated\<rparr>,
           \<lparr>Annotation.startLine = 1, endLine = 3, timestamp = ''2024-01-01'',
            type = AiGenerated\<rparr>],
        lastUpdated = ''2024-01-01'', Snapshot.documentVersion = 1\<rparr>
   \<and> highlightedRanges (fst (applyChange (fixedClock ''2024-01-02'') 0
       \<lparr>highlightedRanges =
          [\<lparr>Annotation.startLine = 1, endLine = 3, timestamp = ''2024-01-01'',
            type = AiGenerated\<rparr>,
           \<lparr>Annotation.startLine = 4, endLine = 6, timestamp = ''2024-01-01'',
            type = AiGenerated\<rparr>],
        lastUpdated = ''2024-01-01'', Snapshot.documentVersion = 1\<rparr>
       \<lparr>Commit.documentVersion = 2, isSignificant = False, contentChanges = []\<rparr>))
     \<noteq> highlightedRanges
       \<lparr>highlightedRanges =
          [\<lparr>Annotation.startLine = 1, endLine = 3, timestamp = ''2024-01-01'',
            type = AiGenerated\<rparr>,
           \<lparr>Annotation.startLine = 4, endLine = 6, timestamp = ''2024-01-01'',
            type = AiGenerated\<rparr>],
        lastUpdated = ''2024-01-01'', Snapshot.documentVersion = 1\<rparr>"
  by (simp add: applyChange_def updateAndCleanAnnotationsForCommit_def arraySort_def
      dateNow_def squashOverlappingAnnotations_def Let_def)

text \<open>
  Claim C7, amended. For every snapshot, a commit with an empty edit list and
  \<open>isSignificant = false\<close> returns the merge of the snapshot's annotation list; the
  returned list is the snapshot's annotation list exactly when that list is merged
  already (ascending by \<open>startLine\<close>, every annotation starting more than one line
  after the end of the one before it).
\<close>

theorem empty_commit_merges_only:
  assumes "contentChanges c = []" and "\<not> isSignificant c"
  shows "highlightedRanges (fst (applyChange clk t s c))
           = squashOverlappingAnnotations (highlightedRanges s)
    \<and> (highlightedRanges (fst (applyChange clk t s c)) = highlightedRanges s
         \<longleftrightarrow> mergedList (highlightedRanges s))"
proof -
  have r: "highlightedRanges (fst (applyChange clk t s c))
             = mergeSpec (highlightedRanges s)"
    using assms
    by (simp add: applyChange_ranges updateAndCleanAnnotationsForCommit_def arraySort_def
        squash_eq_mergeSpec)
  have "mergeSpec (highlightedRanges s) = highlightedRanges s
          \<longleftrightarrow> mergedList (highlightedRanges s)"
    using mergeSpec_id [of "highlightedRanges s"] mergeSpec_merged [of "highlightedRanges s"]
    by auto
  with r show ?thesis
    by (simp add: squash_eq_mergeSpec)
qed

text \<open>The merged list \<open>[1,3], [10,12]\<close> comes back as it is.\<close>

theorem empty_commit_merges_only_witness:
  "contentChanges
     \<lparr>Commit.documentVersion = 2, isSignificant = False, contentChanges = []\<rparr> = []
   \<and> \<not> isSignificant
     \<lparr>Commit.documentVersion = 2, isSignificant = False, contentChanges = []\<rparr>
   \<and> mergedList
       [\<lparr>Annotation.startLine = 1, endLine = 3, timestamp = ''2024-01-01'',
         type = AiGenerated\<rparr>,
        \<lparr>Annotation.startLine = 10, endLine = 12, timestamp = ''2024-01-01'',
         type = AiGenerated\<rparr>]
   \<and> highlightedRanges (fst (applyChange (fixedClock ''2024-01-02'') 0
       \<lparr>highlightedRanges =
          [\<lparr>Annotation.startLine = 1, endLine = 3, timestamp = ''2024-01-01'',
            type = AiGenerated\<rparr>,
           \<lparr>Annotation.startLine = 10, endLine = 12, timestamp = ''2024-01-01'',
            type = AiGenerated\<rparr>],
        lastUpdated = ''2024-01-01'', Snapshot.documentVersion = 1\<rparr>
       \<lparr>Commit.documentVersion = 2, isSignificant = False, contentChanges = []\<rparr>))
     = [\<lparr>Annotation.startLine = 1, endLine = 3, timestamp = ''2024-01-01'',
         type = AiGenerated\<rparr>,
        \<lparr>Annotation.startLine = 10, endLine = 12, timestamp = ''2024-01-01'',
         type = AiGenerated\<rparr>]"
proof -
  let ?c = "\<lparr>Commit.documentVersion = 2, isSignificant = False, contentChanges = []\<rparr>"
  let ?xs = "[\<lparr>Annotation.startLine = 1, endLine = 3, timestamp = ''2024-01-01'',
               type = AiGenerated\<rparr>,
              \<lparr>Annotation.startLine = 10, endLine = 12, timestamp = ''2024-01-01'',
               type = AiGenerated\<rparr>]"
  let ?s = "\<lparr>highlightedRanges = ?xs, lastUpdated = ''2024-01-01'',
             Snapshot.documentVersion = 1\<rparr>"
  have h1: "contentChanges ?c = []" by simp
  have h2: "\<not> isSignificant ?c" by simp
  have m: "mergedList ?xs" by simp
  from empty_commit_merges_only [OF h1 h2, of "fixedClock ''2024-01-02''" 0 ?s]
  have iff: "highlightedRanges (fst (applyChange (fixedClock ''2024-01-02'') 0 ?s ?c))
               = highlightedRanges ?s \<longleftrightarrow> mergedList (highlightedRanges ?s)"
    by (rule conjunct2)
  have "mergedList (highlightedRanges ?s)" by simp
  with iff have "highlightedRanges (fst (applyChange (fixedClock ''2024-01-02'') 0 ?s ?c))
               = highlightedRanges ?s"
    by (rule iffD2)
  then have "highlightedRanges (fst (applyChange (fixedClock ''2024-01-02'') 0 ?s ?c)) = ?xs"
    by simp
  with h1 h2 m show ?thesis by blast
qed

subsection \<open>The clock\<close>

lemma map_insort_key:
  "map g (insort_key (\<lambda>x. k (g x)) x xs) = insort_key k (g x) (map g xs)"
  by (induction xs) simp_all

lemma map_sort_key:
  "map g (sort_key (\<lambda>x. k (g x)) xs) = sort_key k (map g xs)"
  by (induction xs) (simp_all add: map_insort_key)

lemma sort_lineRange:
  "map lineRange (sort_key Annotation.startLine xs) = sort_key fst (map lineRange xs)"
proof -
  have "Annotation.startLine = (\<lambda>a. fst (lineRange a))"
    by (intro ext) (simp add: lineRange_def)
  then show ?thesis
    using map_sort_key [of lineRange fst xs] by simp
qed

lemma mergeScan_lineRange_cong:
  assumes "lineRange c = lineRange c'" and "map lineRange r = map lineRange r'"
  shows "map lineRange (mergeScan c r) = map lineRange (mergeScan c' r')"
  using assms
proof (induction r arbitrary: r' c c')
  case Nil
  then show ?case by simp
next
  case (Cons n r)
  then obtain n' r'' where r': "r' = n' # r''"
    and n: "lineRange n = lineRange n'"
    and r: "map lineRange r = map lineRange r''"
    by (cases r') auto
  let ?m = "\<lambda>c n. c\<lparr>Annotation.endLine := max (Annotation.endLine c) (Annotation.endLine n),
                      timestamp := max (timestamp c) (timestamp n)\<rparr>"
  from Cons.prems(1) n have "lineRange (?m c n) = lineRange (?m c' n')"
    by (simp add: lineRange_def)
  from Cons.IH [OF this r] Cons.IH [OF n r] Cons.prems(1) n show ?case
    unfolding r' by (simp add: lineRange_def)
qed

lemma squash_lineRange_cong:
  assumes "map lineRange xs = map lineRange ys"
  shows "map lineRange (squashOverlappingAnnotations xs)
           = map lineRange (squashOverlappingAnnotations ys)"
proof -
  let ?sx = "sort_key Annotation.startLine xs" and ?sy = "sort_key Annotation.startLine ys"
  have s: "map lineRange ?sx = map lineRange ?sy"
    by (simp add: sort_lineRange assms)
  show ?thesis
  proof (cases ?sx)
    case Nil
    with s have "?sy = []" by simp
    with Nil show ?thesis
      by (simp add: squash_eq_mergeSpec mergeSpec_def)
  next
    case (Cons x rx)
    with s obtain y ry where y: "?sy = y # ry" "lineRange x = lineRange y"
      "map lineRange rx = map lineRange ry"
      by (cases ?sy) auto
    from mergeScan_lineRange_cong [OF y(2,3)] Cons y(1) show ?thesis
      by (simp add: squash_eq_mergeSpec mergeSpec_def)
  qed
qed

subsection \<open>Where the timestamps of the result come from\<close>

lemma transform_timestamp:
  assumes "r \<in> set (processAnnotationForChangeAndClean a e)"
  shows "timestamp r = timestamp a"
  using assms
  by (auto simp: processAnnotationForChangeAndClean_def Let_def split: if_splits)

lemma contentChange_timestamps:
  "timestamp ` set (updateAndCleanAnnotationsForContentChange annotations e)
     \<subseteq> timestamp ` set annotations"
  using transform_timestamp
  by (fastforce simp: updateAndCleanAnnotationsForContentChange_eq)

lemma commitLoop_timestamps:
  "timestamp ` set (commitLoop annotations es) \<subseteq> timestamp ` set annotations"
proof (induction es arbitrary: annotations)
  case Nil
  then show ?case by simp
next
  case (Cons e es)
  from Cons.IH [of "updateAndCleanAnnotationsForContentChange annotations e"]
    contentChange_timestamps [of annotations e]
  show ?case by auto
qed

lemma commit_timestamps:
  "timestamp ` set (updateAndCleanAnnotationsForCommit annotations es)
     \<subseteq> timestamp ` set annotations"
  unfolding updateAndCleanAnnotationsForCommit_def Let_def
  by (rule commitLoop_timestamps)

lemma mergeScan_timestamps:
  "timestamp ` set (mergeScan current rest) \<subseteq> timestamp ` set (current # rest)"
proof (induction rest arbitrary: current)
  case Nil
  then show ?case by simp
next
  case (Cons n rest)
  let ?c = "current\<lparr>Annotation.endLine :=
               max (Annotation.endLine current) (Annotation.endLine n),
             timestamp := max (timestamp current) (timestamp n)\<rparr>"
  have "timestamp ?c = timestamp current \<or> timestamp ?c = timestamp n"
    by (simp add: max_def)
  with Cons.IH [of ?c] Cons.IH [of n] show ?case
    by (cases "Annotation.startLine n \<le> Annotation.endLine current + 1") auto
qed

lemma squash_timestamps:
  "timestamp ` set (squashOverlappingAnnotations annotations)
     \<subseteq> timestamp ` set annotations"
proof (cases "sort_key Annotation.startLine annotations")
  case Nil
  then show ?thesis by (simp add: squash_eq_mergeSpec mergeSpec_def)
next
  case (Cons first rest)
  have "set (first # rest) = set annotations"
    using Cons set_sort [of Annotation.startLine annotations] by simp
  then have "timestamp ` set (first # rest) = timestamp ` set annotations"
    by (rule arg_cong)
  with mergeScan_timestamps [of first rest]
  have "timestamp ` set (mergeScan first rest) \<subseteq> timestamp ` set annotations"
    by (rule subst [rotated])
  with Cons show ?thesis
    by (simp add: squash_eq_mergeSpec mergeSpec_def)
qed

lemma synthesized_timestamps:
  "map timestamp (fst (addAnnotationsForSignificantChanges clk t es))
     = map clk [t..<t + length es]"
  unfolding addAnnotationsForSignificantChanges_def
  using addLoop_timestamps [of clk t "[]" es] by simp

text \<open>
  Claim C9 says that two invocations of \<open>applyChange\<close> on equal inputs return equal
  snapshots. \<open>applyChange\<close> reads the clock for \<open>lastUpdated\<close>, and the synthesizer
  reads it for the timestamp of every new annotation: the same snapshot and commit give
  different snapshots when the clock reads \<open>2024-01-02\<close> and when it reads
  \<open>2024-01-03\<close>.
\<close>

theorem applyChange_deterministic_counterexample:
  "lastUpdated (fst (applyChange (fixedClock ''2024-01-02'') 0
       \<lparr>highlightedRanges =
          [\<lparr>Annotation.startLine = 3, endLine = 8, timestamp = ''2024-01-01'',
            type = AiGenerated\<rparr>],
        lastUpdated = ''2024-01-01'', Snapshot.documentVersion = 1\<rparr>
       \<lparr>Commit.documentVersion = 2, isSignificant = True,
        contentChanges =
          [\<lparr>ContentChange.startLine = 9, endLine = 9, startCharacter = 0, endCharacter = 0,
            text' = [CHR 0x0A, CHR 0x0A], rangeLength = 0, addedLines = 2,
            deletedLines = 0\<rparr>]\<rparr>))
     \<noteq> lastUpdated (fst (applyChange (fixedClock ''2024-01-03'') 0
       \<lparr>highlightedRanges =
          [\<lparr>Annotation.startLine = 3, endLine = 8, timestamp = ''2024-01-01'',
            type = AiGenerated\<rparr>],
        lastUpdated = ''2024-01-01'', Snapshot.documentVersion = 1\<rparr>
       \<lparr>Commit.documentVersion = 2, isSignificant = True,
        contentChanges =
          [\<lparr>ContentChange.startLine = 9, endLine = 9, startCharacter = 0, endCharacter = 0,
            text' = [CHR 0x0A, CHR 0x0A], rangeLength = 0, addedLines = 2,
            deletedLines = 0\<rparr>]\<rparr>))
   \<and> highlightedRanges (fst (applyChange (fixedClock ''2024-01-02'') 0
       \<lparr>highlightedRanges =
          [\<lparr>Annotation.startLine = 3, endLine = 8, timestamp = ''2024-01-01'',
            type = AiGenerated\<rparr>],
        lastUpdated = ''2024-01-01'', Snapshot.documentVersion = 1\<rparr>
       \<lparr>Commit.documentVersion = 2, isSignificant = True,
        contentChanges =
          [\<lparr>ContentChange.startLine = 9, endLine = 9, startCharacter = 0, endCharacter = 0,
            text' = [CHR 0x0A, CHR 0x0A], rangeLength = 0, addedLines = 2,
            deletedLines = 0\<rparr>]\<rparr>))
     = [\<lparr>Annotation.startLine = 3, endLine = 11, timestamp = ''2024-01-02'',
         type = AiGenerated\<rparr>]
   \<and> highlightedRanges (fst (applyChange (fixedClock ''2024-01-03'') 0
       \<lparr>highlightedRanges =
          [\<lparr>Annotation.startLine = 3, endLine = 8, timestamp = ''2024-01-01'',
            type = AiGenerated\<rparr>],
        lastUpdated = ''2024-01-01'', Snapshot.documentVersion = 1\<rparr>
       \<lparr>Commit.documentVersion = 2, isSignificant = True,
        contentChanges =
          [\<lparr>ContentChange.startLine = 9, endLine = 9, startCharacter = 0, endCharacter = 0,
            text' = [CHR 0x0A, CHR 0x0A], rangeLength = 0, addedLines = 2,
            deletedLines = 0\<rparr>]\<rparr>))
     = [\<lparr>Annotation.startLine = 3, endLine = 11, timestamp = ''2024-01-03'',
         type = AiGenerated\<rparr>]
   \<and> fst (applyChange (fixedClock ''2024-01-02'') 0
       \<lparr>highlightedRanges =
          [\<lparr>Annotation.startLine = 3, endLine = 8, timestamp = ''2024-01-01'',
            type = AiGenerated\<rparr>],
        lastUpdated = ''2024-01-01'', Snapshot.documentVersion = 1\<rparr>
       \<lparr>Commit.documentVersion = 2, isSignificant = True,
        contentChanges =
          [\<lparr>ContentChange.startLine = 9, endLine = 9, startCharacter = 0, endCharacter = 0,
            text' = [CHR 0x0A, CHR 0x0A], rangeLength = 0, addedLines = 2,
            deletedLines = 0\<rparr>]\<rparr>)
     \<noteq> fst (applyChange (fixedClock ''2024-01-03'') 0
       \<lparr>highlightedRanges =
          [\<lparr>Annotation.startLine = 3, endLine = 8, timestamp = ''2024-01-01'',
            type = AiGenerated\<rparr>],
        lastUpdated = ''2024-01-01'', Snapshot.documentVersion = 1\<rparr>
       \<lparr>Commit.documentVersion = 2, isSignificant = True,
        contentChanges =
          [\<lparr>ContentChange.startLine = 9, endLine = 9, startCharacter = 0, endCharacter = 0,
            text' = [CHR 0x0A, CHR 0x0A], rangeLength = 0, addedLines = 2,
            deletedLines = 0\<rparr>]\<rparr>)"
  by (simp add: applyChange_def updateAndCleanAnnotationsForCommit_def arraySort_def
      updateAndCleanAnnotationsForContentChange_def processAnnotationForChangeAndClean_def
      addAnnotationsForSignificantChanges_def dateNow_def squashOverlappingAnnotations_def
      fixedClock_def Let_def)

text \<open>
  Claim C9, amended. \<open>applyChange\<close> is a function of the snapshot, the commit and the
  readings of the clock. For every snapshot and commit, whatever the clock reads: the
  line ranges of the returned annotations are the same, and so is the whole returned
  annotation list when the commit is not significant; the \<open>documentVersion\<close> is the
  commit's; \<open>lastUpdated\<close> is the reading of the clock that follows the readings of the
  synthesizer. The returned list is the merge of the shifted annotations followed, for
  a significant commit, by the synthesized ones; the timestamps of the synthesized
  annotations are the successive readings of the clock, one per edit in the order of the
  edits; and every timestamp of a returned annotation is the timestamp of an annotation
  of the input snapshot or, for a significant commit, one of those readings.
\<close>

theorem applyChange_depends_on_clock_only_in_timestamps:
  "map lineRange (highlightedRanges (fst (applyChange clk t s c)))
     = map lineRange (highlightedRanges (fst (applyChange clk' t' s c)))
   \<and> highlightedRanges (fst (applyChange clk t s (c\<lparr>isSignificant := False\<rparr>)))
       = highlightedRanges (fst (applyChange clk' t' s (c\<lparr>isSignificant := False\<rparr>)))
   \<and> Snapshot.documentVersion (fst (applyChange clk t s c)) = Commit.documentVersion c
   \<and> lastUpdated (fst (applyChange clk t s c))
       = clk (t + (if isSignificant c then length (contentChanges c) else 0))
   \<and> highlightedRanges (fst (applyChange clk t s c))
       = squashOverlappingAnnotations
           (updateAndCleanAnnotationsForCommit (highlightedRanges s) (contentChanges c) @
            (if isSignificant c
             then fst (addAnnotationsForSignificantChanges clk t (contentChanges c))
             else []))
   \<and> map timestamp (fst (addAnnotationsForSignificantChanges clk t (contentChanges c)))
       = map clk [t..<t + length (contentChanges c)]
   \<and> timestamp ` set (highlightedRanges (fst (applyChange clk t s c)))
       \<subseteq> timestamp ` set (highlightedRanges s)
         \<union> clk ` {t..<t + (if isSignificant c then length (contentChanges c) else 0)}"
proof -
  let ?shifted = "updateAndCleanAnnotationsForCommit (highlightedRanges s) (contentChanges c)"
  let ?new = "if isSignificant c
              then fst (addAnnotationsForSignificantChanges clk t (contentChanges c))
              else []"
  have new: "map lineRange (fst (addAnnotationsForSignificantChanges k u (contentChanges c)))
      = map (\<lambda>e. (ContentChange.startLine e, ContentChange.startLine e + addedLines e))
          (contentChanges c)" for k u
  proof -
    have "lineRange = (\<lambda>a. (Annotation.startLine a, Annotation.endLine a))"
      by (intro ext) (simp add: lineRange_def)
    then show ?thesis
      unfolding addAnnotationsForSignificantChanges_def
      using addLoop_ranges [of k u "[]" "contentChanges c"] by simp
  qed
  have "map lineRange
          (?shifted @ (if isSignificant c
             then fst (addAnnotationsForSignificantChanges clk t (contentChanges c))
             else []))
      = map lineRange
          (?shifted @ (if isSignificant c
             then fst (addAnnotationsForSignificantChanges clk' t' (contentChanges c))
             else []))"
    by (simp add: new)
  from squash_lineRange_cong [OF this]
  have ranges: "map lineRange (highlightedRanges (fst (applyChange clk t s c)))
     = map lineRange (highlightedRanges (fst (applyChange clk' t' s c)))"
    unfolding applyChange_ranges .
  have quiet: "highlightedRanges (fst (applyChange clk t s (c\<lparr>isSignificant := False\<rparr>)))
       = highlightedRanges (fst (applyChange clk' t' s (c\<lparr>isSignificant := False\<rparr>)))"
    by (simp add: applyChange_ranges)
  have pipeline: "highlightedRanges (fst (applyChange clk t s c))
       = squashOverlappingAnnotations (?shifted @ ?new)"
    by (rule applyChange_ranges)
  have stamps: "map timestamp
        (fst (addAnnotationsForSignificantChanges clk t (contentChanges c)))
       = map clk [t..<t + length (contentChanges c)]"
    by (rule synthesized_timestamps)
  have "timestamp ` set (fst (addAnnotationsForSignificantChanges clk t (contentChanges c)))
          = set (map timestamp
                  (fst (addAnnotationsForSignificantChanges clk t (contentChanges c))))"
    by simp
  also have "\<dots> = clk ` {t..<t + length (contentChanges c)}"
    unfolding stamps by simp
  finally have "timestamp ` set ?new
      \<subseteq> clk ` {t..<t + (if isSignificant c then length (contentChanges c) else 0)}"
    by (cases "isSignificant c") simp_all
  with commit_timestamps [of "highlightedRanges s" "contentChanges c"]
  have "timestamp ` set (?shifted @ ?new)
      \<subseteq> timestamp ` set (highlightedRanges s)
        \<union> clk ` {t..<t + (if isSignificant c then length (contentChanges c) else 0)}"
    by (auto simp del: image_Un simp: image_Un [symmetric])
  with squash_timestamps [of "?shifted @ ?new"]
  have origin: "timestamp ` set (highlightedRanges (fst (applyChange clk t s c)))
      \<subseteq> timestamp ` set (highlightedRanges s)
        \<union> clk ` {t..<t + (if isSignificant c then length (contentChanges c) else 0)}"
    unfolding pipeline by blast
  from ranges quiet applyChange_version [of clk t s c] applyChange_lastUpdated [of clk t s c]
    pipeline stamps origin
  show ?thesis by blast
qed

end
